theory Spec2Isabelle
  imports Complex_Main
begin

section \<open>The randomized control engine of YCY-Control\<close>

text \<open>
  A shallow embedding of \<^verbatim>\<open>core/random_controller.py\<close> (class RandomController)
  and of the part of \<^verbatim>\<open>core/ycy_fjb.py\<close> (class YCY_FJB_Device) that the
  controller calls. Channels and modes are Python strings, the limits dictionary is an
  association list in insertion order, Python integers are \<open>int\<close>, and durations
  (Python floats) are idealised as \<open>real\<close>.
\<close>

subsection \<open>Errors\<close>

text \<open>
  The exceptions the two modules raise. The Chinese messages of the source are replaced
  by a tag naming the check that failed.
\<close>

datatype error =
    ValueError string
  | RuntimeError string
  | KeyError string

type_synonym limits_t = "(string \<times> (int \<times> int)) list"

subsection \<open>The random module\<close>

text \<open>
  Every call of the random module takes its outcome from a natural number drawn by the
  environment. \<open>random.choice(seq)\<close> indexes the sequence below its length,
  \<open>random.randint(a, b)\<close> returns \<open>a\<close> plus a number below \<open>b - a + 1\<close>, and
  \<open>random.uniform(a, b)\<close> is \<open>a + (b - a) * random()\<close> with \<open>random()\<close> a
  multiple of \<open>2 ^ -53\<close> in \<open>[0, 1)\<close>. \<open>choice\<close> is only called on a non-empty
  sequence.
\<close>

definition choice :: "'a list \<Rightarrow> nat \<Rightarrow> 'a" where
  "choice xs r = xs ! (r mod length xs)"

definition randint :: "int \<Rightarrow> int \<Rightarrow> nat \<Rightarrow> int" where
  "randint a b r = a + int (r mod nat (b - a + 1))"

definition random_unit :: "nat \<Rightarrow> real" where
  "random_unit r = real (r mod 2 ^ 53) / 2 ^ 53"

definition uniform :: "real \<Rightarrow> real \<Rightarrow> nat \<Rightarrow> real" where
  "uniform a b r = a + (b - a) * random_unit r"

subsection \<open>Value generation\<close>

text \<open>
  \<open>_generate_random_value(channel, exclude_values)\<close>. \<open>self.limits[channel]\<close>
  raises KeyError for a missing channel.
\<close>

definition generate_random_value :: "limits_t \<Rightarrow> string \<Rightarrow> int list \<Rightarrow> nat \<Rightarrow> error + int" where
  "generate_random_value lims channel exclude_values r =
     (case map_of lims channel of
        None \<Rightarrow> Inl (KeyError channel)
      | Some (min_val, max_val) \<Rightarrow>
          if channel = ''A'' then
            (let pv0 = (if min_val = 0 then [0] else []);
                 forward_min = max 1 min_val;
                 forward_max = min 20 max_val;
                 pv1 = pv0 @ (if forward_min \<le> forward_max then [forward_min..forward_max] else []);
                 reverse_min = max 21 min_val;
                 reverse_max = min 40 max_val;
                 pv2 = pv1 @ (if reverse_min \<le> reverse_max then [reverse_min..reverse_max] else []);
                 possible_values = filter (\<lambda>v. v \<notin> set exclude_values) pv2
             in if possible_values = [] then Inr min_val
                else Inr (choice possible_values r))
          else
            (let possible_values = filter (\<lambda>v. v \<notin> set exclude_values) [min_val..max_val]
             in if possible_values = [] then Inr min_val
                else Inr (choice possible_values r)))"

text \<open>\<open>_generate_frequency_delay\<close>.\<close>

definition generate_frequency_delay :: "nat \<Rightarrow> real" where
  "generate_frequency_delay r = uniform 3.0 11.0 r"

text \<open>
  The domain of channel A as the specification words it: the pause value 0 when the
  configured minimum is 0, the forward sub-range and the reverse sub-range.
\<close>

definition a_domain :: "int \<Rightarrow> int \<Rightarrow> int set" where
  "a_domain lo hi =
     (if lo = 0 then {0} else {}) \<union> {max 1 lo .. min 20 hi} \<union> {max 21 lo .. min 40 hi}"

subsection \<open>The device\<close>

text \<open>
  \<open>YCY_FJB_Device\<close>: the connection flag, the three speed levels and the packets
  handed to the BLE client. The write of the BLE client itself is outside the repository
  and is taken to succeed on a connected device.
\<close>

record fjb_device =
  connected :: bool
  current_levels :: "string \<Rightarrow> int"
  written :: "int list list"

definition calculate_checksum :: "int list \<Rightarrow> int" where
  "calculate_checksum data = sum_list data mod 256"

definition send_speed_control :: "fjb_device \<Rightarrow> (error + unit) \<times> fjb_device" where
  "send_speed_control d =
     (if \<not> connected d then (Inl (RuntimeError ''not connected''), d)
      else
        (let data = [0x35, 0x12, current_levels d ''A'', current_levels d ''B'',
                     current_levels d ''C''];
             packet = data @ [calculate_checksum data]
         in (Inr (), d\<lparr>written := written d @ [packet]\<rparr>)))"

definition send_mode_control :: "string \<Rightarrow> int \<Rightarrow> fjb_device \<Rightarrow> (error + unit) \<times> fjb_device" where
  "send_mode_control motor mode_value d =
     (if \<not> connected d then (Inl (RuntimeError ''not connected''), d)
      else if motor = ''A'' \<or> motor = ''B'' \<or> motor = ''C'' then
        (let motor_code = (if motor = ''A'' then 0x01 else if motor = ''B'' then 0x12 else 0x14);
             data = [0x35, 0x11, motor_code, mode_value];
             packet = data @ [calculate_checksum data]
         in (Inr (), d\<lparr>written := written d @ [packet]\<rparr>))
      else (Inl (ValueError ''motor''), d))"

definition set_speed :: "string \<Rightarrow> int \<Rightarrow> fjb_device \<Rightarrow> (error + unit) \<times> fjb_device" where
  "set_speed motor level d =
     (if motor \<notin> set [''A'', ''B'', ''C''] then (Inl (ValueError ''motor''), d)
      else if motor = ''A'' \<and> \<not> (0 \<le> level \<and> level \<le> 40) then
        (Inl (ValueError ''A level''), d)
      else if motor \<noteq> ''A'' \<and> \<not> (0 \<le> level \<and> level \<le> 20) then
        (Inl (ValueError ''level''), d)
      else send_speed_control (d\<lparr>current_levels := (current_levels d)(motor := level)\<rparr>))"

definition set_mode :: "string \<Rightarrow> int \<Rightarrow> fjb_device \<Rightarrow> (error + unit) \<times> fjb_device" where
  "set_mode motor mode_value d =
     (if motor \<notin> set [''A'', ''B'', ''C''] then (Inl (ValueError ''motor''), d)
      else if \<not> (0 \<le> mode_value \<and> mode_value \<le> 7) then (Inl (ValueError ''mode value''), d)
      else send_mode_control motor mode_value d)"

definition new_device :: fjb_device where
  "new_device = \<lparr>connected = False, current_levels = (\<lambda>_. 0), written = []\<rparr>"

definition connected_device :: fjb_device where
  "connected_device = new_device\<lparr>connected := True\<rparr>"

subsection \<open>The controller and its environment\<close>

text \<open>
  The fields of \<open>RandomController\<close>, extended by what the controller acts on: the
  borrowed device, the asyncio tasks created so far (a task handle is an index into
  them), the events observed so far and the clock of the event loop. An event is a call
  of the device (recorded whether or not it succeeds), a completed \<open>asyncio.sleep\<close>
  or a \<open>logger.error\<close>; info and debug logging is left out.
\<close>

datatype task_status = Pending | Cancelled | Finished

datatype event =
    SetSpeed string int
  | SetMode string int
  | Sleep real
  | LogError string

record controller =
  is_running :: bool
  mode :: "string option"
  limits :: limits_t
  auto_loop :: bool
  task :: "nat option"
  b_channel_timer :: "nat option"
  last_b_command_time :: real

record world = controller +
  device :: fjb_device
  tasks :: "task_status list"
  trace :: "event list"
  now :: real

record draws =
  draw_a :: nat
  draw_b :: nat
  draw_c :: nat
  draw_hold :: nat

type_synonym action = "world \<Rightarrow> (error + unit) \<times> world"

text \<open>\<open>__init__\<close>, with the environment at its start.\<close>

definition init :: "fjb_device \<Rightarrow> world" where
  "init dev =
     \<lparr>is_running = False, mode = None,
      limits = [(''A'', (0, 20)), (''B'', (1, 20)), (''C'', (0, 20))],
      auto_loop = True, task = None, b_channel_timer = None, last_b_command_time = 0,
      device = dev, tasks = [], trace = [], now = 0\<rparr>"

text \<open>The \<open>status\<close> property.\<close>

definition status :: "world \<Rightarrow> bool \<times> string option \<times> limits_t" where
  "status w = (is_running w, mode w, limits w)"

text \<open>Sequencing of awaited calls, and \<open>try: ... except Exception\<close>.\<close>

definition ok :: action where
  "ok w = (Inr (), w)"

definition and_then :: "action \<Rightarrow> action \<Rightarrow> action" where
  "and_then f g w = (case f w of (Inl e, w') \<Rightarrow> (Inl e, w') | (Inr _, w') \<Rightarrow> g w')"

definition try_except :: "action \<Rightarrow> (error \<Rightarrow> action) \<Rightarrow> action" where
  "try_except f h w = (case f w of (Inl e, w') \<Rightarrow> h e w' | (Inr u, w') \<Rightarrow> (Inr u, w'))"

definition call_set_speed :: "string \<Rightarrow> int \<Rightarrow> action" where
  "call_set_speed channel v w =
     (case set_speed channel v (device w) of
        (r, d) \<Rightarrow> (r, w\<lparr>device := d, trace := trace w @ [SetSpeed channel v]\<rparr>))"

definition call_set_mode :: "string \<Rightarrow> int \<Rightarrow> action" where
  "call_set_mode channel v w =
     (case set_mode channel v (device w) of
        (r, d) \<Rightarrow> (r, w\<lparr>device := d, trace := trace w @ [SetMode channel v]\<rparr>))"

definition sleep :: "real \<Rightarrow> action" where
  "sleep delay w = (Inr (), w\<lparr>trace := trace w @ [Sleep delay], now := now w + max 0 delay\<rparr>)"

definition log_error :: "string \<Rightarrow> action" where
  "log_error tag w = (Inr (), w\<lparr>trace := trace w @ [LogError tag]\<rparr>)"

text \<open>Tasks: \<open>asyncio.create_task\<close>, \<open>task.done()\<close> and \<open>task.cancel()\<close>.\<close>

definition task_pending :: "task_status list \<Rightarrow> nat \<Rightarrow> bool" where
  "task_pending ts t = (t < length ts \<and> ts ! t = Pending)"

definition cancel :: "nat \<Rightarrow> world \<Rightarrow> world" where
  "cancel t w = (if task_pending (tasks w) t then w\<lparr>tasks := (tasks w)[t := Cancelled]\<rparr> else w)"

definition create_task :: "world \<Rightarrow> world" where
  "create_task w = w\<lparr>tasks := tasks w @ [Pending], task := Some (length (tasks w))\<rparr>"

subsection \<open>Stopping\<close>

text \<open>
  \<open>stop\<close>: clears the running flag, cancels the loop task when there is one that
  is not done, zeroes the three channels with the operation of \<open>self.mode\<close>, then
  cancels the channel-B timer. The device calls are not guarded: the first one that
  raises ends \<open>stop\<close> with that error.
\<close>

definition stop_motors :: action where
  "stop_motors w =
     (if mode w = Some ''speed'' then
        and_then (call_set_speed ''A'' 0)
          (and_then (call_set_speed ''B'' 0) (call_set_speed ''C'' 0)) w
      else
        and_then (call_set_mode ''A'' 0)
          (and_then (call_set_mode ''B'' 0) (call_set_mode ''C'' 0)) w)"

definition cancel_b_channel_timer :: action where
  "cancel_b_channel_timer w =
     (case b_channel_timer w of
        Some t \<Rightarrow> (Inr (), (cancel t w)\<lparr>b_channel_timer := None\<rparr>)
      | None \<Rightarrow> (Inr (), w))"

definition stop :: action where
  "stop w =
     (let w1 = w\<lparr>is_running := False\<rparr>;
          w2 = (case task w1 of Some t \<Rightarrow> cancel t w1 | None \<Rightarrow> w1)
      in and_then stop_motors cancel_b_channel_timer w2)"

subsection \<open>One cycle\<close>

text \<open>
  \<open>_execute_speed_mode\<close>: the three values are generated in the order A, B, C and
  written in the order A, C, B; the time of a non-zero B command is recorded.
\<close>

definition execute_speed_mode :: "draws \<Rightarrow> action" where
  "execute_speed_mode d w =
     (case generate_random_value (limits w) ''A'' [] (draw_a d) of
        Inl e \<Rightarrow> (Inl e, w)
      | Inr va \<Rightarrow>
     (case generate_random_value (limits w) ''B'' [] (draw_b d) of
        Inl e \<Rightarrow> (Inl e, w)
      | Inr vb \<Rightarrow>
     (case generate_random_value (limits w) ''C'' [] (draw_c d) of
        Inl e \<Rightarrow> (Inl e, w)
      | Inr vc \<Rightarrow>
          and_then (call_set_speed ''A'' va)
            (and_then (call_set_speed ''C'' vc)
              (and_then (call_set_speed ''B'' (if vb > 0 then vb else 0))
                (\<lambda>w'. (Inr (), if vb > 0 then w'\<lparr>last_b_command_time := now w'\<rparr> else w')))) w)))"

text \<open>\<open>_execute_mode_mode\<close>: three draws of \<open>randint(1, 7)\<close>, written in the order A, B, C.\<close>

definition execute_mode_mode :: "draws \<Rightarrow> action" where
  "execute_mode_mode d w =
     (let va = randint 1 7 (draw_a d);
          vb = randint 1 7 (draw_b d);
          vc = randint 1 7 (draw_c d)
      in and_then (call_set_mode ''A'' va)
           (and_then (call_set_mode ''B'' vb) (call_set_mode ''C'' vc)) w)"

text \<open>The dispatch on \<open>self.mode\<close> that opens a cycle; any other mode does nothing.\<close>

definition execute_by_mode :: "draws \<Rightarrow> action" where
  "execute_by_mode d w =
     (if mode w = Some ''speed'' then execute_speed_mode d w
      else if mode w = Some ''mode'' then execute_mode_mode d w
      else ok w)"

text \<open>\<open>_handle_b_channel_exhale_cycle(inhale_duration)\<close>.\<close>

definition exhale_duration :: "real \<Rightarrow> real" where
  "exhale_duration inhale_duration = max 0.5 (min (inhale_duration * 0.6) 3.0)"

definition handle_b_channel_exhale_cycle :: "real \<Rightarrow> action" where
  "handle_b_channel_exhale_cycle inhale_duration =
     try_except
       (and_then (call_set_speed ''B'' 0) (sleep (exhale_duration inhale_duration)))
       (\<lambda>e. log_error ''exhale cycle'')"

text \<open>
  \<open>_handle_b_channel_exhale\<close> and \<open>_schedule_exhale(delay)\<close>. Nothing in the class
  calls them, and nothing assigns \<open>b_channel_timer\<close>.
\<close>

definition handle_b_channel_exhale :: action where
  "handle_b_channel_exhale =
     try_except
       (\<lambda>w. if mode w = Some ''speed'' then call_set_speed ''B'' 0 w else ok w)
       (\<lambda>e. log_error ''exhale'')"

definition schedule_exhale :: "real \<Rightarrow> action" where
  "schedule_exhale delay = and_then (sleep delay) handle_b_channel_exhale"

text \<open>The release after the hold: only when \<open>self.mode\<close> is then \<open>speed\<close>.\<close>

definition exhale_if_speed :: "real \<Rightarrow> action" where
  "exhale_if_speed hold_duration w =
     (if mode w = Some ''speed'' then handle_b_channel_exhale_cycle hold_duration w else ok w)"

subsection \<open>The single shot\<close>

text \<open>
  \<open>_execute_once\<close>. The coroutine suspends at \<open>asyncio.sleep(10)\<close>;
  \<open>execute_once_rest\<close> is what it does from there on, so that a call interleaved at
  that suspension can be written down.
\<close>

definition execute_once_rest :: action where
  "execute_once_rest = and_then (sleep 10) (exhale_if_speed 10)"

definition execute_once_except :: "error \<Rightarrow> action" where
  "execute_once_except e = log_error ''execute once''"

definition execute_once :: "draws \<Rightarrow> action" where
  "execute_once d = try_except (and_then (execute_by_mode d) execute_once_rest) execute_once_except"

definition execute_once_resume :: action where
  "execute_once_resume = try_except execute_once_rest execute_once_except"

subsection \<open>The loop\<close>

text \<open>
  One iteration of the \<open>while\<close> of \<open>_random_loop\<close>: the cycle, the hold, the release,
  all inside \<open>try\<close>; the handler logs the error and the traceback and waits one second.
\<close>

definition random_loop_except :: "error \<Rightarrow> action" where
  "random_loop_except e =
     and_then (log_error ''random loop'') (and_then (log_error ''traceback'') (sleep 1))"

definition random_loop_body :: "draws \<Rightarrow> action" where
  "random_loop_body d =
     try_except
       (and_then (execute_by_mode d)
          (and_then (sleep (generate_frequency_delay (draw_hold d)))
             (exhale_if_speed (generate_frequency_delay (draw_hold d)))))
       random_loop_except"

text \<open>
  The task \<open>t\<close> running \<open>_random_loop\<close>, given the draws of as many iterations as the
  event loop lets it run: a task that is not pending runs nothing; the loop ends, and
  the task is finished, when \<open>is_running and auto_loop\<close> fails.
\<close>

fun random_loop :: "nat \<Rightarrow> draws list \<Rightarrow> world \<Rightarrow> world" where
  "random_loop t [] w = w"
| "random_loop t (d # ds) w =
     (if \<not> task_pending (tasks w) t then w
      else if is_running w \<and> auto_loop w then random_loop t ds (snd (random_loop_body d w))
      else w\<lparr>tasks := (tasks w)[t := Finished]\<rparr>)"

subsection \<open>Starting\<close>

text \<open>
  The validation loop of \<open>start\<close> over \<open>limits.items()\<close>: the first entry that
  violates its bound raises.
\<close>

fun check_limits :: "limits_t \<Rightarrow> error option" where
  "check_limits [] = None"
| "check_limits ((channel, (min_val, max_val)) # rest) =
     (if channel = ''A'' then
        (if \<not> (0 \<le> min_val \<and> min_val \<le> max_val \<and> max_val \<le> 40)
         then Some (ValueError ''A limits'') else check_limits rest)
      else
        (if \<not> (0 \<le> min_val \<and> min_val \<le> max_val \<and> max_val \<le> 20)
         then Some (ValueError (channel @ '' limits'')) else check_limits rest))"

definition validate :: "string \<Rightarrow> limits_t \<Rightarrow> error option" where
  "validate mode_arg limits_arg =
     (if mode_arg \<notin> set [''speed'', ''mode''] then Some (ValueError ''mode'')
      else if \<not> list_all (\<lambda>channel. channel \<in> set (map fst limits_arg)) [''A'', ''B'', ''C'']
        then Some (ValueError ''channels'')
      else check_limits limits_arg)"

text \<open>
  \<open>start\<close> up to \<open>self.is_running = True\<close>: validation, the assignment of the three
  fields, and the implicit \<open>stop\<close> when the engine is running.
\<close>

definition start_prologue :: "string \<Rightarrow> limits_t \<Rightarrow> bool \<Rightarrow> action" where
  "start_prologue mode_arg limits_arg auto_loop_arg w =
     (case validate mode_arg limits_arg of
        Some e \<Rightarrow> (Inl e, w)
      | None \<Rightarrow>
          (let w1 = w\<lparr>mode := Some mode_arg, limits := limits_arg, auto_loop := auto_loop_arg\<rparr>
           in and_then (\<lambda>w'. if is_running w' then stop w' else ok w')
                (\<lambda>w'. (Inr (), w'\<lparr>is_running := True\<rparr>)) w1))"

text \<open>
  \<open>start\<close>: with \<open>auto_loop\<close> the loop task is created and \<open>start\<close> returns;
  without it the single shot runs inside \<open>start\<close>, on the draws \<open>d\<close>.
\<close>

definition start :: "string \<Rightarrow> limits_t \<Rightarrow> bool \<Rightarrow> draws \<Rightarrow> action" where
  "start mode_arg limits_arg auto_loop_arg d =
     and_then (start_prologue mode_arg limits_arg auto_loop_arg)
       (\<lambda>w. if auto_loop_arg then (Inr (), create_task w) else execute_once d w)"

subsection \<open>Auxiliary definitions for the statements\<close>

text \<open>The list of candidate values that the channel-A branch builds before it filters.\<close>

definition a_values :: "int \<Rightarrow> int \<Rightarrow> int list" where
  "a_values lo hi =
     (if lo = 0 then [0] else []) @
     (if max 1 lo \<le> min 20 hi then [max 1 lo..min 20 hi] else []) @
     (if max 21 lo \<le> min 40 hi then [max 21 lo..min 40 hi] else [])"

text \<open>The limits and the draws of the examples.\<close>

definition example_limits :: limits_t where
  "example_limits = [(''A'', (0, 15)), (''B'', (1, 10)), (''C'', (0, 8))]"

definition example_draws :: draws where
  "example_draws = \<lparr>draw_a = 5, draw_b = 3, draw_c = 4, draw_hold = 0\<rparr>"

text \<open>
  What a cycle in mode \<open>mode\<close> may do: write a preset from 1 to 7 to one of the three
  channels with \<open>set_mode\<close>, sleep, or log an error; never a \<open>set_speed\<close>.
\<close>

definition mode_event_ok :: "event \<Rightarrow> bool" where
  "mode_event_ok ev =
     (case ev of
        SetMode channel v \<Rightarrow> channel \<in> set [''A'', ''B'', ''C''] \<and> 1 \<le> v \<and> v \<le> 7
      | SetSpeed channel v \<Rightarrow> False
      | Sleep delay \<Rightarrow> True
      | LogError tag \<Rightarrow> True)"

text \<open>
  A controller on a connected device on which \<open>start\<close> has just set a session up
  (up to \<open>is_running = True\<close>), in either mode.
\<close>

definition mode_session :: world where
  "mode_session = snd (start_prologue ''mode'' example_limits True (init connected_device))"


text \<open>A dictionary of limits with a fourth channel.\<close>

definition four_channel_limits :: limits_t where
  "four_channel_limits = [(''A'', (0, 15)), (''B'', (1, 10)), (''C'', (0, 8)), (''D'', (0, 5))]"

text \<open>Every entry of the limits is within the bound of its channel.\<close>

definition limits_ok :: "limits_t \<Rightarrow> bool" where
  "limits_ok lims =
     list_all (\<lambda>(channel, (lo, hi)). 0 \<le> lo \<and> lo \<le> hi \<and> hi \<le> (if channel = ''A'' then 40 else 20)) lims"

text \<open>
  Three situations. A speed session with \<open>auto_loop\<close> on a connected device, after
  one iteration of its loop. The same on a device that was never connected. And a
  single shot in speed mode (\<open>auto_loop\<close> false) on a connected device, at the moment
  \<open>start\<close> is suspended in the 10-second hold of \<open>_execute_once\<close>: the writes of
  the cycle are done, and \<open>start\<close> has not returned.
\<close>

definition running_speed_session :: world where
  "running_speed_session =
     random_loop 0 [example_draws]
       (snd (start ''speed'' example_limits True example_draws (init connected_device)))"

definition unconnected_session :: world where
  "unconnected_session =
     random_loop 0 [example_draws]
       (snd (start ''speed'' example_limits True example_draws (init new_device)))"

definition single_shot_holding :: world where
  "single_shot_holding =
     snd (execute_by_mode example_draws
            (snd (start_prologue ''speed'' example_limits False (init connected_device))))"

subsection \<open>Unfolding\<close>

lemmas device_defs = set_speed_def set_mode_def send_speed_control_def send_mode_control_def
  call_set_speed_def call_set_mode_def

lemmas step_defs = and_then_def try_except_def ok_def sleep_def log_error_def

lemmas cycle_defs = random_loop_body_def random_loop_except_def execute_once_def
  execute_once_rest_def execute_once_except_def execute_once_resume_def execute_by_mode_def
  execute_mode_mode_def execute_speed_mode_def exhale_if_speed_def
  handle_b_channel_exhale_cycle_def exhale_duration_def

lemmas session_defs = start_def start_prologue_def validate_def stop_def stop_motors_def
  cancel_b_channel_timer_def cancel_def create_task_def task_pending_def init_def
  connected_device_def new_device_def example_limits_def example_draws_def

subsection \<open>Facts about the random module\<close>

lemma choice_in_set: "xs \<noteq> [] \<Longrightarrow> choice xs r \<in> set xs"
  by (simp add: choice_def)

lemma randint_bounds: "a \<le> b \<Longrightarrow> a \<le> randint a b r \<and> randint a b r \<le> b"
proof -
  assume ab: "a \<le> b"
  then have pos: "0 < nat (b - a + 1)" by simp
  have "r mod nat (b - a + 1) < nat (b - a + 1)"
    using pos by (rule mod_less_divisor)
  then have "int (r mod nat (b - a + 1)) < b - a + 1"
    using ab by linarith
  then show ?thesis
    by (simp add: randint_def)
qed

lemma random_unit_bounds: "0 \<le> random_unit r \<and> random_unit r < 1"
proof -
  have "r mod 2 ^ 53 < (2::nat) ^ 53" by simp
  then have "real (r mod 2 ^ 53) < real ((2::nat) ^ 53)"
    by (simp only: of_nat_less_iff)
  then show ?thesis
    by (simp add: random_unit_def)
qed

lemma uniform_bounds: "a \<le> b \<Longrightarrow> a \<le> uniform a b r \<and> uniform a b r \<le> b"
proof -
  assume ab: "a \<le> b"
  have u: "0 \<le> random_unit r" "random_unit r \<le> 1"
    using random_unit_bounds [of r] by simp_all
  have lo: "0 \<le> (b - a) * random_unit r"
    using ab u by simp
  have "(b - a) * random_unit r \<le> (b - a) * 1"
    using ab u by (intro mult_left_mono) simp_all
  then show ?thesis
    using lo by (simp add: uniform_def)
qed

lemma generate_frequency_delay_bounds:
  "3 \<le> generate_frequency_delay r \<and> generate_frequency_delay r \<le> 11"
  using uniform_bounds [of 3 11 r] by (simp add: generate_frequency_delay_def)

subsection \<open>Facts about value generation\<close>

lemma set_a_values: "set (a_values lo hi) = a_domain lo hi"
  by (auto simp: a_values_def a_domain_def)

lemma generate_A_unfold:
  "map_of lims ''A'' = Some (lo, hi) \<Longrightarrow>
   generate_random_value lims ''A'' [] r =
     (if a_values lo hi = [] then Inr lo else Inr (choice (a_values lo hi) r))"
  by (simp add: generate_random_value_def a_values_def Let_def)

lemma generate_other_unfold:
  "channel \<noteq> ''A'' \<Longrightarrow> map_of lims channel = Some (lo, hi) \<Longrightarrow>
   generate_random_value lims channel [] r =
     (if lo \<le> hi then Inr (choice [lo..hi] r) else Inr lo)"
  by (simp add: generate_random_value_def Let_def)

lemma a_domain_valid_nonempty:
  "0 \<le> lo \<Longrightarrow> lo \<le> hi \<Longrightarrow> hi \<le> 40 \<Longrightarrow> a_domain lo hi \<noteq> {}"
  by (auto simp: a_domain_def)


lemma generate_A_cases:
  assumes "map_of lims ''A'' = Some (lo, hi)"
  shows "\<exists>v. generate_random_value lims ''A'' [] r = Inr v \<and>
           (if a_domain lo hi = {} then v = lo else v \<in> a_domain lo hi)"
proof (cases "a_values lo hi = []")
  case True
  then have "a_domain lo hi = {}"
    using set_a_values [of lo hi] by simp
  then show ?thesis
    using True by (simp add: generate_A_unfold [OF assms])
next
  case False
  then have "choice (a_values lo hi) r \<in> set (a_values lo hi)"
    by (rule choice_in_set)
  then have "choice (a_values lo hi) r \<in> a_domain lo hi"
    by (simp only: set_a_values)
  then show ?thesis
    using False by (auto simp: generate_A_unfold [OF assms])
qed

lemma generate_other_range:
  assumes "channel \<noteq> ''A''" and "map_of lims channel = Some (lo, hi)" and "lo \<le> hi"
  shows "\<exists>v. generate_random_value lims channel [] r = Inr v \<and> lo \<le> v \<and> v \<le> hi"
proof -
  have ne: "[lo..hi] \<noteq> []" using assms(3) by simp
  have "choice [lo..hi] r \<in> set [lo..hi]"
    using ne by (rule choice_in_set)
  then show ?thesis
    using assms by (simp add: generate_other_unfold)
qed

subsection \<open>Channel A in speed mode\<close>

text \<open>
  Claim C5. In speed mode the value generated for channel A, whose limits are
  \<open>(lo, hi)\<close>, lies in the union of \<open>{0}\<close> (only when \<open>lo = 0\<close>), the forward
  sub-range \<open>[max(1, lo), min(20, hi)]\<close> and the reverse sub-range
  \<open>[max(21, lo), min(40, hi)]\<close> whenever \<open>0 \<le> lo \<le> hi \<le> 40\<close>; and when that union
  is empty the generator returns \<open>lo\<close>.
\<close>

theorem generate_A_in_domain:
  assumes "map_of lims ''A'' = Some (lo, hi)"
  shows "\<exists>v. generate_random_value lims ''A'' [] r = Inr v \<and>
           (0 \<le> lo \<and> lo \<le> hi \<and> hi \<le> 40 \<longrightarrow> v \<in> a_domain lo hi) \<and>
           (a_domain lo hi = {} \<longrightarrow> v = lo)"
  using generate_A_cases [OF assms, of r] a_domain_valid_nonempty [of lo hi]
  by (auto split: if_splits)

theorem generate_A_in_domain_witness:
  "generate_random_value example_limits ''A'' [] 7 = Inr 7
   \<and> 7 \<in> a_domain 0 15
   \<and> a_domain 5 3 = {}
   \<and> generate_random_value [(''A'', (5, 3))] ''A'' [] 2 = Inr 5"
proof -
  have v: "generate_random_value example_limits ''A'' [] 7 = Inr 7"
    by code_simp
  have e: "a_domain 5 3 = {}"
    by (simp add: a_domain_def)
  have m1: "map_of example_limits ''A'' = Some (0, 15)"
    by (simp add: example_limits_def)
  have m2: "map_of [(''A'', (5::int, 3::int))] ''A'' = Some (5, 3)"
    by simp
  show ?thesis
    using generate_A_in_domain [OF m1, of 7] generate_A_in_domain [OF m2, of 2] v e
    by auto
qed

subsection \<open>Channels B and C in speed mode\<close>

text \<open>
  Claim C7. In speed mode, for limits \<open>(lo, hi)\<close> of channel B or of channel C with
  \<open>lo \<le> hi\<close>, every generated value lies in the inclusive range \<open>[lo, hi]\<close>.
\<close>

theorem generate_B_C_in_range:
  assumes "channel = ''B'' \<or> channel = ''C''"
    and "map_of lims channel = Some (lo, hi)"
    and "lo \<le> hi"
  shows "\<exists>v. generate_random_value lims channel [] r = Inr v \<and> lo \<le> v \<and> v \<le> hi"
proof -
  have "channel \<noteq> ''A''" using assms(1) by auto
  then show ?thesis
    using assms(2,3) by (rule generate_other_range)
qed

theorem generate_B_C_in_range_witness:
  "map_of example_limits ''B'' = Some (1, 10)
   \<and> generate_random_value example_limits ''B'' [] 13 = Inr 4
   \<and> map_of example_limits ''C'' = Some (0, 8)
   \<and> generate_random_value example_limits ''C'' [] 8 = Inr 8"
proof -
  have m1: "map_of example_limits ''B'' = Some (1, 10)"
    by (simp add: example_limits_def)
  have m2: "map_of example_limits ''C'' = Some (0, 8)"
    by (simp add: example_limits_def)
  have v1: "generate_random_value example_limits ''B'' [] 13 = Inr 4"
    by code_simp
  have v2: "generate_random_value example_limits ''C'' [] 8 = Inr 8"
    by code_simp
  show ?thesis
    using generate_B_C_in_range [OF _ m1, of 13] generate_B_C_in_range [OF _ m2, of 8]
      m1 m2 v1 v2
    by simp
qed

subsection \<open>A fresh controller\<close>

text \<open>
  Claim C10. A freshly constructed controller, before any call of \<open>start\<close>, reports
  \<open>is_running\<close> false, mode \<open>None\<close> and the default limits A: (0, 20), B: (1, 20),
  C: (0, 20), which are not empty.
\<close>

theorem fresh_status:
  "status (init dev) = (False, None, [(''A'', (0, 20)), (''B'', (1, 20)), (''C'', (0, 20))])
   \<and> snd (snd (status (init dev))) \<noteq> []"
  by (simp add: status_def init_def)

subsection \<open>Facts about validated limits and the example sessions\<close>

lemma randint_1_7: "0 \<le> randint 1 7 r \<and> 1 \<le> randint 1 7 r \<and> randint 1 7 r \<le> 7"
  using randint_bounds [of 1 7 r] by simp




lemma mode_session_facts: "mode mode_session = Some ''mode'' \<and> trace mode_session = []"
  by (simp add: mode_session_def session_defs step_defs)



subsection \<open>Cycles in mode \<open>mode\<close>\<close>

text \<open>
  Claim C6. When the mode is \<open>mode\<close>, whatever the limits and whether the cycle is
  an iteration of the loop (\<open>auto_loop\<close>) or the single shot, every value a cycle
  writes goes to channel A, B or C through \<open>set_mode\<close> and lies in \<open>[1, 7]\<close>, so it
  is never 0, and the cycle makes no \<open>set_speed\<close> call, so there is no release of
  channel B. On a connected device the cycle is exactly the three writes and the hold.
\<close>

theorem mode_mode_values:
  assumes "mode w = Some ''mode''"
  shows "(\<exists>evs. trace (snd (random_loop_body d w)) = trace w @ evs \<and> list_all mode_event_ok evs \<and>
            (connected (device w) \<longrightarrow> (\<exists>va vb vc h. evs =
               [SetMode ''A'' va, SetMode ''B'' vb, SetMode ''C'' vc, Sleep h]))) \<and>
         (\<exists>evs. trace (snd (execute_once d w)) = trace w @ evs \<and> list_all mode_event_ok evs \<and>
            (connected (device w) \<longrightarrow> (\<exists>va vb vc. evs =
               [SetMode ''A'' va, SetMode ''B'' vb, SetMode ''C'' vc, Sleep 10])))"
  using assms randint_1_7 [of "draw_a d"] randint_1_7 [of "draw_b d"] randint_1_7 [of "draw_c d"]
  by (cases "connected (device w)")
    (simp_all add: cycle_defs device_defs step_defs mode_event_ok_def Let_def)

theorem mode_mode_values_witness:
  "mode mode_session = Some ''mode''
   \<and> trace (snd (random_loop_body example_draws mode_session)) =
       [SetMode ''A'' 6, SetMode ''B'' 4, SetMode ''C'' 5, Sleep 3]
   \<and> trace (snd (execute_once example_draws mode_session)) =
       [SetMode ''A'' 6, SetMode ''B'' 4, SetMode ''C'' 5, Sleep 10]"
proof -
  have m: "mode mode_session = Some ''mode''"
    using mode_session_facts by simp
  have t1: "trace (snd (random_loop_body example_draws mode_session)) =
       [SetMode ''A'' 6, SetMode ''B'' 4, SetMode ''C'' 5, Sleep 3]"
    by (simp add: mode_session_def session_defs cycle_defs device_defs step_defs Let_def
        randint_def generate_frequency_delay_def uniform_def random_unit_def)
  have t2: "trace (snd (execute_once example_draws mode_session)) =
       [SetMode ''A'' 6, SetMode ''B'' 4, SetMode ''C'' 5, Sleep 10]"
    by (simp add: mode_session_def session_defs cycle_defs device_defs step_defs Let_def
        randint_def)
  show ?thesis
    using mode_mode_values [OF m, of example_draws] m t1 t2 by simp
qed

subsection \<open>The release of channel B in speed mode\<close>



subsection \<open>Facts about validation, \<open>stop\<close> and \<open>start\<close>\<close>

lemma check_limits_None_iff: "check_limits lims = None \<longleftrightarrow> limits_ok lims"
  by (induction lims rule: check_limits.induct) (auto simp: limits_ok_def)

lemma check_limits_ValueError: "check_limits lims = Some e \<Longrightarrow> \<exists>msg. e = ValueError msg"
  by (induction lims rule: check_limits.induct) (auto split: if_splits)

lemma validate_ValueError: "validate m lims = Some e \<Longrightarrow> \<exists>msg. e = ValueError msg"
  by (auto simp: validate_def split: if_splits dest: check_limits_ValueError)

lemma validate_None_iff:
  "validate m lims = None \<longleftrightarrow>
     (m = ''speed'' \<or> m = ''mode'') \<and> {''A'', ''B'', ''C''} \<subseteq> fst ` set lims \<and> limits_ok lims"
  by (auto simp: validate_def check_limits_None_iff)

lemma call_set_speed_zero_error:
  "c \<in> set [''A'', ''B'', ''C''] \<Longrightarrow> fst (call_set_speed c 0 w) = Inl e \<Longrightarrow> e = RuntimeError ''not connected''"
  by (auto simp: device_defs Let_def split: if_splits)

lemma call_set_mode_zero_error:
  "c \<in> set [''A'', ''B'', ''C''] \<Longrightarrow> fst (call_set_mode c 0 w) = Inl e \<Longrightarrow> e = RuntimeError ''not connected''"
  by (auto simp: device_defs Let_def split: if_splits)

lemma stop_error: "fst (stop w) = Inl e \<Longrightarrow> e = RuntimeError ''not connected''"
  by (cases "connected (device w)")
     (auto simp: stop_def stop_motors_def cancel_b_channel_timer_def cancel_def device_defs step_defs Let_def
       split: if_splits option.splits)

lemma random_loop_body_returns: "fst (random_loop_body d w) = Inr ()"
  by (auto simp: random_loop_body_def random_loop_except_def step_defs split: prod.splits sum.splits)

lemma execute_once_returns: "fst (execute_once d w) = Inr ()"
  by (auto simp: execute_once_def execute_once_except_def step_defs split: prod.splits sum.splits)

lemma start_error_cases:
  "fst (start m lims al d w) = Inl e \<Longrightarrow>
     (validate m lims = Some e \<and> snd (start m lims al d w) = w) \<or>
     (validate m lims = None \<and> is_running w \<and> e = RuntimeError ''not connected'')"
proof (cases "validate m lims")
  case (Some e')
  assume "fst (start m lims al d w) = Inl e"
  then show ?thesis
    using Some by (simp add: start_def start_prologue_def and_then_def)
next
  case None
  assume err: "fst (start m lims al d w) = Inl e"
  let ?w1 = "w\<lparr>mode := Some m, limits := lims, auto_loop := al\<rparr>"
  show ?thesis
  proof (cases "is_running w")
    case True
    obtain r w2 where s: "stop ?w1 = (r, w2)" by (cases "stop ?w1")
    show ?thesis
    proof (cases r)
      case (Inl e2)
      then have "e2 = RuntimeError ''not connected''"
        using stop_error [of ?w1 e2] s by simp
      then show ?thesis
        using err None True s Inl
        by (simp add: start_def start_prologue_def and_then_def)
    next
      case (Inr u)
      then show ?thesis
        using err None True s execute_once_returns [of d "w2\<lparr>is_running := True\<rparr>"]
        by (simp add: start_def start_prologue_def and_then_def ok_def split: if_splits)
    qed
  next
    case False
    then show ?thesis
      using err None execute_once_returns [of d "?w1\<lparr>is_running := True\<rparr>"]
      by (simp add: start_def start_prologue_def and_then_def ok_def split: if_splits)
  qed
qed

lemma start_invalid: "validate m lims = Some e \<Longrightarrow> start m lims al d w = (Inl e, w)"
  by (simp add: start_def start_prologue_def and_then_def)

lemma limits_ok_iff:
  "limits_ok lims \<longleftrightarrow>
      \<not> (\<exists>(channel, (lo, hi)) \<in> set lims.
            \<not> (0 \<le> lo \<and> lo \<le> hi \<and> hi \<le> (if channel = ''A'' then 40 else 20)))"
  by (auto simp: limits_ok_def list_all_iff)

lemma start_ValueError_iff:
  "(\<exists>msg. fst (start m lims al d w) = Inl (ValueError msg)) \<longleftrightarrow> validate m lims \<noteq> None"
proof
  assume "\<exists>msg. fst (start m lims al d w) = Inl (ValueError msg)"
  then obtain msg where "fst (start m lims al d w) = Inl (ValueError msg)" ..
  then show "validate m lims \<noteq> None"
    using start_error_cases [of m lims al d w "ValueError msg"] by auto
next
  assume "validate m lims \<noteq> None"
  then obtain e where e: "validate m lims = Some e" by auto
  then obtain msg where "e = ValueError msg" using validate_ValueError by blast
  then show "\<exists>msg. fst (start m lims al d w) = Inl (ValueError msg)"
    using start_invalid [OF e, of al d w] by auto
qed

lemma start_ValueError_unchanged:
  assumes "fst (start m lims al d w) = Inl (ValueError msg)"
  shows "snd (start m lims al d w) = w"
  using start_error_cases [OF assms] by auto

lemma example_generate:
  "generate_random_value [(''A'', (0, 15)), (''B'', (1, 10)), (''C'', (0, 8))] ''A'' [] 5 = Inr 5"
  "generate_random_value [(''A'', (0, 15)), (''B'', (1, 10)), (''C'', (0, 8))] ''B'' [] 3 = Inr 4"
  "generate_random_value [(''A'', (0, 15)), (''B'', (1, 10)), (''C'', (0, 8))] ''C'' [] 4 = Inr 4"
  by code_simp+


subsection \<open>Validation in \<open>start\<close>\<close>

text \<open>
  Claim C3, as amended. \<open>start\<close> fails with a \<open>ValueError\<close> exactly when the mode
  is neither \<open>speed\<close> nor \<open>mode\<close>, or the limits lack one of the channels A, B, C,
  or some entry of the limits violates \<open>0 \<le> min \<le> max \<le> 40\<close> (key A) or
  \<open>0 \<le> min \<le> max \<le> 20\<close> (any other key); and on such a failure nothing of the
  engine has changed, so \<open>status\<close> is the same.
\<close>

theorem start_validation:
  "((\<exists>msg. fst (start m lims al d w) = Inl (ValueError msg)) \<longleftrightarrow>
      \<not> (m = ''speed'' \<or> m = ''mode'')
      \<or> \<not> {''A'', ''B'', ''C''} \<subseteq> fst ` set lims
      \<or> (\<exists>(channel, (lo, hi)) \<in> set lims.
            \<not> (0 \<le> lo \<and> lo \<le> hi \<and> hi \<le> (if channel = ''A'' then 40 else 20))))
   \<and> ((\<exists>msg. fst (start m lims al d w) = Inl (ValueError msg)) \<longrightarrow>
        snd (start m lims al d w) = w \<and> status (snd (start m lims al d w)) = status w)"
proof (intro conjI impI)
  have "validate m lims \<noteq> None \<longleftrightarrow>
      \<not> (m = ''speed'' \<or> m = ''mode'')
      \<or> \<not> {''A'', ''B'', ''C''} \<subseteq> fst ` set lims
      \<or> \<not> limits_ok lims"
    unfolding validate_None_iff by blast
  then show "(\<exists>msg. fst (start m lims al d w) = Inl (ValueError msg)) \<longleftrightarrow>
      \<not> (m = ''speed'' \<or> m = ''mode'')
      \<or> \<not> {''A'', ''B'', ''C''} \<subseteq> fst ` set lims
      \<or> (\<exists>(channel, (lo, hi)) \<in> set lims.
            \<not> (0 \<le> lo \<and> lo \<le> hi \<and> hi \<le> (if channel = ''A'' then 40 else 20)))"
    unfolding start_ValueError_iff limits_ok_iff by blast
next
  assume "\<exists>msg. fst (start m lims al d w) = Inl (ValueError msg)"
  then obtain msg where "fst (start m lims al d w) = Inl (ValueError msg)" ..
  then show "snd (start m lims al d w) = w"
    by (rule start_ValueError_unchanged)
  then show "status (snd (start m lims al d w)) = status w"
    by simp
qed

theorem start_validation_witness:
  "fst (start ''speed'' [(''A'', (0, 50)), (''B'', (1, 10)), (''C'', (0, 8))] True example_draws
          (init connected_device)) = Inl (ValueError ''A limits'')
   \<and> status (snd (start ''speed'' [(''A'', (0, 50)), (''B'', (1, 10)), (''C'', (0, 8))] True
          example_draws (init connected_device))) = status (init connected_device)"
proof -
  let ?r = "start ''speed'' [(''A'', (0, 50)), (''B'', (1, 10)), (''C'', (0, 8))] True example_draws
          (init connected_device)"
  have a: "fst ?r = Inl (ValueError ''A limits'')"
    by (simp add: start_def start_prologue_def validate_def and_then_def)
  then have ex: "\<exists>msg. fst ?r = Inl (ValueError msg)"
    by (rule exI)
  have "status (snd ?r) = status (init connected_device)"
    using start_validation [of "''speed''" "[(''A'', (0, 50)), (''B'', (1, 10)), (''C'', (0, 8))]"
        True example_draws "init connected_device"] ex
    by blast
  then show ?thesis
    using a by simp
qed


text \<open>
  Claim C3 as stated fails: limits that contain a further channel D besides A, B and C,
  all within their bounds, do not consist of exactly A, B and C, and \<open>start\<close>
  accepts them.
\<close>

theorem start_extra_channel_counterexample:
  "set (map fst four_channel_limits) \<noteq> {''A'', ''B'', ''C''}
   \<and> fst (start ''speed'' four_channel_limits True example_draws (init connected_device)) = Inr ()
   \<and> limits (snd (start ''speed'' four_channel_limits True example_draws (init connected_device)))
       = four_channel_limits"
proof -
  have ne: "set (map fst four_channel_limits) \<noteq> {''A'', ''B'', ''C''}"
  proof
    assume "set (map fst four_channel_limits) = {''A'', ''B'', ''C''}"
    moreover have "''D'' \<in> set (map fst four_channel_limits)"
      by (simp add: four_channel_limits_def)
    ultimately have "''D'' \<in> {''A'', ''B'', ''C''}"
      by simp
    then show False
      by simp
  qed
  have run: "fst (start ''speed'' four_channel_limits True example_draws (init connected_device)) = Inr ()
     \<and> limits (snd (start ''speed'' four_channel_limits True example_draws (init connected_device)))
       = four_channel_limits"
    by (simp add: four_channel_limits_def session_defs step_defs)
  show ?thesis
    using ne run by simp
qed

subsection \<open>\<open>stop\<close> on an idle engine\<close>

text \<open>
  Claim C2, as amended. On an idle engine whose device is connected, \<open>stop\<close> returns
  normally, leaves \<open>status\<close> as it was, and issues exactly three zero commands, to A,
  B and C: \<open>set_speed\<close> when the stored mode is \<open>speed\<close>, \<open>set_mode\<close> otherwise.
\<close>

theorem stop_idle_zeroes:
  assumes "\<not> is_running w" and "connected (device w)"
  shows "fst (stop w) = Inr ()
    \<and> status (snd (stop w)) = status w
    \<and> trace (snd (stop w)) = trace w @
         (if mode w = Some ''speed''
          then [SetSpeed ''A'' 0, SetSpeed ''B'' 0, SetSpeed ''C'' 0]
          else [SetMode ''A'' 0, SetMode ''B'' 0, SetMode ''C'' 0])"
  using assms
  by (simp add: stop_def stop_motors_def cancel_b_channel_timer_def cancel_def status_def
      device_defs step_defs Let_def split: option.splits)


theorem stop_idle_zeroes_witness:
  "\<not> is_running (init connected_device)
   \<and> connected (device (init connected_device))
   \<and> fst (stop (init connected_device)) = Inr ()
   \<and> status (snd (stop (init connected_device))) = status (init connected_device)
   \<and> trace (snd (stop (init connected_device))) =
       trace (init connected_device) @ [SetMode ''A'' 0, SetMode ''B'' 0, SetMode ''C'' 0]"
proof -
  have i: "\<not> is_running (init connected_device)"
    by (simp add: init_def)
  have c: "connected (device (init connected_device))"
    by (simp add: init_def connected_device_def)
  have m: "mode (init connected_device) = None"
    by (simp add: init_def)
  show ?thesis
    using stop_idle_zeroes [OF i c] i c m by simp
qed


text \<open>
  Claim C2 as stated fails: \<open>stop\<close> on a fresh, idle controller sends three
  \<open>set_mode\<close> commands.
\<close>

theorem stop_idle_counterexample:
  "\<not> is_running (init connected_device)
   \<and> trace (init connected_device) = []
   \<and> trace (snd (stop (init connected_device))) =
       [SetMode ''A'' 0, SetMode ''B'' 0, SetMode ''C'' 0]"
  by (simp add: session_defs device_defs step_defs Let_def)


subsection \<open>\<open>start\<close> on a running engine\<close>

text \<open>
  The implicit \<open>stop\<close> of \<open>start\<close> runs after \<open>self.mode\<close> has been assigned, so it
  zeroes the channels with the operation of the mode that was passed to this \<open>start\<close>.
\<close>

lemma restart_zero_sequence:
  assumes "is_running w" and "validate m lims = None" and "connected (device w)"
  shows "fst (start_prologue m lims al w) = Inr ()
    \<and> trace (snd (start_prologue m lims al w)) = trace w @
         (if m = ''speed''
          then [SetSpeed ''A'' 0, SetSpeed ''B'' 0, SetSpeed ''C'' 0]
          else [SetMode ''A'' 0, SetMode ''B'' 0, SetMode ''C'' 0])"
  using assms
  by (simp add: start_prologue_def stop_def stop_motors_def cancel_b_channel_timer_def cancel_def
      device_defs step_defs Let_def split: option.splits)


lemma running_speed_session_eval:
  "is_running running_speed_session
   \<and> mode running_speed_session = Some ''speed''
   \<and> connected (device running_speed_session)
   \<and> tasks running_speed_session = [Pending]
   \<and> task running_speed_session = Some 0
   \<and> b_channel_timer running_speed_session = None
   \<and> trace running_speed_session =
       [SetSpeed ''A'' 5, SetSpeed ''C'' 4, SetSpeed ''B'' 4, Sleep 3, SetSpeed ''B'' 0, Sleep 1.8]"
  using example_generate
  by (simp add: running_speed_session_def session_defs cycle_defs device_defs step_defs Let_def
      generate_frequency_delay_def uniform_def random_unit_def)


text \<open>
  Claim C1. After \<open>start\<close> in speed mode and one iteration of its loop, a second
  \<open>start\<close> in mode \<open>mode\<close> cancels the first task and leaves one pending task, and
  before the second session runs the engine issues the zero commands: with \<open>set_mode\<close>,
  the operation of the second session, where the claim requires \<open>set_speed\<close>, the
  operation of the first.
\<close>

theorem restart_zeroes_in_new_mode:
  "is_running running_speed_session
   \<and> mode running_speed_session = Some ''speed''
   \<and> trace running_speed_session =
       [SetSpeed ''A'' 5, SetSpeed ''C'' 4, SetSpeed ''B'' 4, Sleep 3, SetSpeed ''B'' 0, Sleep 1.8]
   \<and> fst (start ''mode'' example_limits True example_draws running_speed_session) = Inr ()
   \<and> trace (snd (start ''mode'' example_limits True example_draws running_speed_session)) =
       trace running_speed_session @ [SetMode ''A'' 0, SetMode ''B'' 0, SetMode ''C'' 0]
   \<and> tasks (snd (start ''mode'' example_limits True example_draws running_speed_session)) =
       [Cancelled, Pending]
   \<and> task (snd (start ''mode'' example_limits True example_draws running_speed_session)) = Some 1"
  using running_speed_session_eval
  by (simp add: start_def start_prologue_def validate_def stop_def stop_motors_def
      cancel_b_channel_timer_def cancel_def create_task_def task_pending_def example_limits_def
      device_defs step_defs Let_def)

subsection \<open>Errors of device writes\<close>

text \<open>
  The loop iteration and the single shot always return normally and leave the running
  flag alone; a write that fails inside the loop is followed by the two error logs and a
  sleep of one second. \<open>stop\<close> on a device that is not connected ends with the error
  of its first write.
\<close>

lemma random_loop_body_running: "is_running (snd (random_loop_body d w)) = is_running w"
  by (simp add: cycle_defs device_defs step_defs Let_def
      split: sum.splits prod.splits option.splits if_splits)

lemma stop_unconnected:
  "\<not> connected (device w) \<Longrightarrow> fst (stop w) = Inl (RuntimeError ''not connected'')"
  by (simp add: stop_def stop_motors_def cancel_def device_defs step_defs Let_def
      split: option.splits)

lemma random_loop_body_unconnected_mode:
  assumes "\<not> connected (device w)" and "mode w = Some ''mode''"
  shows "trace (snd (random_loop_body d w)) = trace w @
     [SetMode ''A'' (randint 1 7 (draw_a d)), LogError ''random loop'', LogError ''traceback'',
      Sleep 1]"
  using assms randint_1_7 [of "draw_a d"]
  by (simp add: cycle_defs device_defs step_defs Let_def)


text \<open>
  Claim C4. On a device that is not connected, \<open>start\<close> with \<open>auto_loop\<close> succeeds,
  an iteration of the loop catches the failed write, logs it, waits one second and the
  engine is still running; but \<open>stop\<close> ends with the \<open>RuntimeError\<close> of the device,
  and so does a second \<open>start\<close> through its implicit \<open>stop\<close>, where the claim
  requires that no error of a device write reaches the caller.
\<close>

theorem stop_propagates_device_error:
  "fst (start ''speed'' example_limits True example_draws (init new_device)) = Inr ()
   \<and> trace unconnected_session =
       [SetSpeed ''A'' 5, LogError ''random loop'', LogError ''traceback'', Sleep 1]
   \<and> is_running unconnected_session
   \<and> fst (stop unconnected_session) = Inl (RuntimeError ''not connected'')
   \<and> fst (start ''mode'' example_limits True example_draws unconnected_session) =
       Inl (RuntimeError ''not connected'')"
  using example_generate
  by (simp add: unconnected_session_def session_defs cycle_defs device_defs step_defs Let_def)


subsection \<open>Writes after \<open>stop\<close>\<close>

text \<open>
  After \<open>stop\<close> the loop task that the controller held is not pending and runs no
  further iteration. The single shot is not a task: it runs inside \<open>start\<close>, and from
  its hold on it does what \<open>execute_once_resume\<close> does.
\<close>

lemma cancel_self: "\<not> task_pending (tasks (cancel t w)) t"
  by (simp add: cancel_def task_pending_def)

lemma cancel_other: "\<not> task_pending (tasks w) t \<Longrightarrow> \<not> task_pending (tasks (cancel u w)) t"
  by (auto simp: cancel_def task_pending_def nth_list_update)

lemma stop_motors_tasks: "tasks (snd (stop_motors w)) = tasks w"
  by (simp add: stop_motors_def device_defs step_defs Let_def)

lemma cancel_b_channel_timer_tasks:
  "\<not> task_pending (tasks w) t \<Longrightarrow> \<not> task_pending (tasks (snd (cancel_b_channel_timer w))) t"
  by (simp add: cancel_b_channel_timer_def cancel_other split: option.splits)

lemma stop_cancels_task:
  assumes "task w = Some t"
  shows "\<not> task_pending (tasks (snd (stop w))) t"
proof -
  let ?w2 = "cancel t (w\<lparr>is_running := False\<rparr>)"
  have np: "\<not> task_pending (tasks (snd (stop_motors ?w2))) t"
    by (simp only: stop_motors_tasks cancel_self not_False_eq_True)
  obtain r w3 where sm: "stop_motors ?w2 = (r, w3)"
    by (cases "stop_motors ?w2")
  have np3: "\<not> task_pending (tasks w3) t"
    using np sm by simp
  have "stop w = and_then stop_motors cancel_b_channel_timer ?w2"
    using assms by (simp add: stop_def)
  then show ?thesis
    using sm np3 cancel_b_channel_timer_tasks [OF np3]
    by (cases r) (simp_all add: and_then_def)
qed

lemma random_loop_after_stop:
  assumes "task w = Some t"
  shows "random_loop t ds (snd (stop w)) = snd (stop w)"
  using stop_cancels_task [OF assms] by (cases ds) simp_all

lemma execute_once_split:
  "execute_once d w =
     (case execute_by_mode d w of
        (Inl e, w') \<Rightarrow> execute_once_except e w'
      | (Inr u, w') \<Rightarrow> execute_once_resume w')"
  by (simp add: execute_once_def execute_once_resume_def and_then_def try_except_def
      split: prod.splits sum.splits)


text \<open>
  Claim C9. While \<open>start\<close> in speed mode without \<open>auto_loop\<close> is suspended in its
  10-second hold, \<open>stop\<close> finds no task to cancel, zeroes the channels and returns;
  when the hold is over the single shot resumes and commands channel B to 0 and sleeps 3
  seconds: a release write of the stopped session after \<open>stop\<close> has returned, which
  the claim excludes.
\<close>

theorem release_after_stop:
  "fst (execute_by_mode example_draws
          (snd (start_prologue ''speed'' example_limits False (init connected_device)))) = Inr ()
   \<and> task single_shot_holding = None
   \<and> fst (stop single_shot_holding) = Inr ()
   \<and> trace (snd (stop single_shot_holding)) =
       [SetSpeed ''A'' 5, SetSpeed ''C'' 4, SetSpeed ''B'' 4,
        SetSpeed ''A'' 0, SetSpeed ''B'' 0, SetSpeed ''C'' 0]
   \<and> trace (snd (execute_once_resume (snd (stop single_shot_holding)))) =
       trace (snd (stop single_shot_holding)) @ [Sleep 10, SetSpeed ''B'' 0, Sleep 3]"
  using example_generate
  by (simp add: single_shot_holding_def session_defs cycle_defs device_defs step_defs Let_def)

end
